theory Spec2Isabelle
  imports Complex_Main
begin

section \<open>Input data and user defined constants\<close>

text \<open>
  \<^verbatim>\<open>portfolio.py\<close> reads two tables. \<^verbatim>\<open>array_df\<close> has one row per asset with the columns
  tickers, returns, ubounds and lbounds; \<^verbatim>\<open>cov_df\<close> is looked up by a pair of labels
  (\<^verbatim>\<open>cov_df.loc[i, j]\<close>). Python floats are modelled as the reals they stand for.
\<close>

type_synonym array_row = "string \<times> real \<times> real \<times> real"

type_synonym cov_table = "(string \<times> string) \<rightharpoonup> real"

datatype error = KeyError | ValueError | TypeError

definition investment_strs :: "array_row list \<Rightarrow> string list" where
  "investment_strs array_df = map (\<lambda>(t, r, u, l). t) array_df"

definition return_floats :: "array_row list \<Rightarrow> real list" where
  "return_floats array_df = map (\<lambda>(t, r, u, l). r) array_df"

definition ubounds :: "array_row list \<Rightarrow> real list" where
  "ubounds array_df = map (\<lambda>(t, r, u, l). u) array_df"

definition lbounds :: "array_row list \<Rightarrow> real list" where
  "lbounds array_df = map (\<lambda>(t, r, u, l). l) array_df"

definition net_upper_long_bound :: real where
  "net_upper_long_bound = 1"

definition net_lower_long_bound :: real where
  "net_lower_long_bound = 1 / 2"

definition net_upper_short_bound :: real where
  "net_upper_short_bound = 1"

definition net_lower_short_bound :: real where
  "net_lower_short_bound = 1 / 2"

definition card_limit :: real where
  "card_limit = 15"

definition rho :: real where
  "rho = 1 / 2"

section \<open>Sets and parameters of the model\<close>

text \<open>
  \<^verbatim>\<open>Set(initialize=investment_strs)\<close> adds the tickers one by one; a ticker that is already
  a member is not added again. \<^verbatim>\<open>dict(zip(ks, vs))\<close> stores the pairs in order, a later
  pair overwriting an earlier one with the same key.
\<close>

definition set_initialize :: "'a list \<Rightarrow> 'a list" where
  "set_initialize xs = fold (\<lambda>x s. if x \<in> set s then s else s @ [x]) xs []"

definition dict_zip :: "'k list \<Rightarrow> 'v list \<Rightarrow> ('k \<rightharpoonup> 'v)" where
  "dict_zip ks vs = fold (\<lambda>(k, v) d. d(k \<mapsto> v)) (zip ks vs) Map.empty"

record model =
  investments :: "string list"
  returns :: "string \<rightharpoonup> real"
  upper_asset_bounds :: "string \<rightharpoonup> real"
  lower_asset_bounds :: "string \<rightharpoonup> real"
  covariance_mat :: "(string \<times> string) \<rightharpoonup> real"

text \<open>
  \<^verbatim>\<open>m.returns[i]\<close>: the value of a parameter at an index. The rules below index the
  parameters with members of their index sets only, where a value is stored
  (lemmas \<open>construct_params_defined\<close> and \<open>construct_cov_defined\<close>).
\<close>

definition param :: "('k \<rightharpoonup> real) \<Rightarrow> 'k \<Rightarrow> real" where
  "param p k = the (p k)"

text \<open>\<^verbatim>\<open>cov_init\<close> reads the table; a label pair that is not in the table raises.\<close>

definition cov_init :: "cov_table \<Rightarrow> string \<Rightarrow> string \<Rightarrow> error + real" where
  "cov_init cov_df i j = (case cov_df (i, j) of None \<Rightarrow> Inl KeyError | Some c \<Rightarrow> Inr c)"

text \<open>
  \<^verbatim>\<open>Param(m.investments, m.investments, initialize=cov_init)\<close> calls the rule for every
  index pair in order and stops at the first exception.
\<close>

fun param_by_rule :: "(string \<Rightarrow> string \<Rightarrow> error + real) \<Rightarrow> (string \<times> string) list
    \<Rightarrow> error + ((string \<times> string) \<rightharpoonup> real)" where
  "param_by_rule rule [] = Inr Map.empty"
| "param_by_rule rule ((i, j) # ks) =
     (case rule i j of
        Inl e \<Rightarrow> Inl e
      | Inr c \<Rightarrow> (case param_by_rule rule ks of
                   Inl e \<Rightarrow> Inl e
                 | Inr p \<Rightarrow> Inr (p((i, j) \<mapsto> c))))"

text \<open>Iterating a parameter yields its indices: all ordered pairs of investments.\<close>

definition covariance_mat_keys :: "model \<Rightarrow> (string \<times> string) list" where
  "covariance_mat_keys m = List.product (investments m) (investments m)"

section \<open>Decision variables and expressions\<close>

datatype var = Allocation_s string | Allocation_l string | D_l string | D_s string

datatype domain = NonNegativeReals | Boolean

datatype expr =
    Num real
  | Var var
  | Neg expr
  | Add expr expr
  | Sub expr expr
  | Mul expr expr
  | SumOf "expr list"

datatype relation = Le expr expr | Ge expr expr

datatype sense = minimize | maximize

type_synonym assignment = "var \<Rightarrow> real"

fun eval :: "assignment \<Rightarrow> expr \<Rightarrow> real" where
  "eval a (Num c) = c"
| "eval a (Var v) = a v"
| "eval a (Neg e) = - eval a e"
| "eval a (Add e f) = eval a e + eval a f"
| "eval a (Sub e f) = eval a e - eval a f"
| "eval a (Mul e f) = eval a e * eval a f"
| "eval a (SumOf es) = sum_list (map (eval a) es)"

fun holds :: "assignment \<Rightarrow> relation \<Rightarrow> bool" where
  "holds a (Le e f) = (eval a e \<le> eval a f)"
| "holds a (Ge e f) = (eval a e \<ge> eval a f)"

fun in_domain :: "domain \<Rightarrow> real \<Rightarrow> bool" where
  "in_domain NonNegativeReals x = (0 \<le> x)"
| "in_domain Boolean x = (x = 0 \<or> x = 1)"

section \<open>Objective and constraint rules\<close>

definition net :: "string \<Rightarrow> expr" where
  "net i = Sub (Var (Allocation_l i)) (Var (Allocation_s i))"

definition obj_rule :: "model \<Rightarrow> expr" where
  "obj_rule m =
     Sub (SumOf (map (\<lambda>i. Mul (Num (param (returns m) i)) (net i)) (investments m)))
         (Mul (Num rho)
              (SumOf (map (\<lambda>(i, j). Mul (Mul (Num (param (covariance_mat m) (i, j))) (net i)) (net j))
                          (covariance_mat_keys m))))"

definition lflag_rule :: "model \<Rightarrow> string \<Rightarrow> relation" where
  "lflag_rule m i =
     Le (Var (Allocation_l i)) (Mul (Var (D_l i)) (Num (param (upper_asset_bounds m) i)))"

definition sflag_rule :: "model \<Rightarrow> string \<Rightarrow> relation" where
  "sflag_rule m i =
     Ge (Neg (Var (Allocation_s i))) (Mul (Var (D_s i)) (Num (param (lower_asset_bounds m) i)))"

definition card_rule :: "model \<Rightarrow> relation" where
  "card_rule m =
     Le (SumOf (map (\<lambda>i. Add (Var (D_l i)) (Var (D_s i))) (investments m))) (Num card_limit)"

definition binary_rule :: "model \<Rightarrow> string \<Rightarrow> relation" where
  "binary_rule m i = Le (Add (Var (D_l i)) (Var (D_s i))) (Num 1)"

text \<open>
  The four aggregate rules take an index \<^verbatim>\<open>i\<close> that the generator expression shadows:
  the relation does not depend on it.
\<close>

definition netlong_rule_ub :: "model \<Rightarrow> string \<Rightarrow> relation" where
  "netlong_rule_ub m i =
     Le (SumOf (map (\<lambda>i. Var (Allocation_l i)) (investments m))) (Num net_upper_long_bound)"

definition netlong_rule_lb :: "model \<Rightarrow> string \<Rightarrow> relation" where
  "netlong_rule_lb m i =
     Le (SumOf (map (\<lambda>i. Var (Allocation_l i)) (investments m))) (Num net_upper_long_bound)"

definition netshrt_rule_ub :: "model \<Rightarrow> string \<Rightarrow> relation" where
  "netshrt_rule_ub m i =
     Le (SumOf (map (\<lambda>i. Var (Allocation_s i)) (investments m))) (Num net_upper_short_bound)"

definition netshrt_rule_lb :: "model \<Rightarrow> string \<Rightarrow> relation" where
  "netshrt_rule_lb m i =
     Ge (SumOf (map (\<lambda>i. Var (Allocation_s i)) (investments m))) (Num net_lower_short_bound)"

section \<open>Construction of the instance\<close>

datatype cname =
    Cons_long_invest_ubs string
  | Cons_shrt_invest_lbs string
  | Cons_cardinality_ubs
  | Cons_long_shrt_none string
  | Net_long_upper string
  | Net_long_lower string
  | Net_short_upper string
  | Net_short_lower string

record miqp_instance =
  params :: model
  variables :: "(var \<times> domain) list"
  objectives :: "(sense \<times> expr) list"
  constraints :: "(cname \<times> relation) list"

text \<open>
  \<^verbatim>\<open>Var(m.investments, domain=D)\<close> and \<^verbatim>\<open>Constraint(m.investments, rule=r)\<close> declare one
  member per investment; \<^verbatim>\<open>Constraint(rule=r)\<close> declares a single one.
\<close>

definition Var_indexed :: "(string \<Rightarrow> var) \<Rightarrow> domain \<Rightarrow> string list \<Rightarrow> (var \<times> domain) list" where
  "Var_indexed v d idx = map (\<lambda>i. (v i, d)) idx"

definition Constraint_indexed :: "(string \<Rightarrow> cname) \<Rightarrow> (string \<Rightarrow> relation) \<Rightarrow> string list
    \<Rightarrow> (cname \<times> relation) list" where
  "Constraint_indexed n rule idx = map (\<lambda>i. (n i, rule i)) idx"

definition build_model :: "array_row list \<Rightarrow> ((string \<times> string) \<rightharpoonup> real) \<Rightarrow> model" where
  "build_model array_df cm =
     \<lparr> investments = set_initialize (investment_strs array_df),
       returns = dict_zip (investment_strs array_df) (return_floats array_df),
       upper_asset_bounds = dict_zip (investment_strs array_df) (ubounds array_df),
       lower_asset_bounds = dict_zip (investment_strs array_df) (lbounds array_df),
       covariance_mat = cm \<rparr>"

definition declare_components :: "model \<Rightarrow> miqp_instance" where
  "declare_components m =
     \<lparr> params = m,
       variables =
         Var_indexed Allocation_s NonNegativeReals (investments m) @
         Var_indexed Allocation_l NonNegativeReals (investments m) @
         Var_indexed D_l Boolean (investments m) @
         Var_indexed D_s Boolean (investments m),
       objectives = [(maximize, obj_rule m)],
       constraints =
         Constraint_indexed Cons_long_invest_ubs (lflag_rule m) (investments m) @
         Constraint_indexed Cons_shrt_invest_lbs (sflag_rule m) (investments m) @
         [(Cons_cardinality_ubs, card_rule m)] @
         Constraint_indexed Cons_long_shrt_none (binary_rule m) (investments m) @
         Constraint_indexed Net_long_upper (netlong_rule_ub m) (investments m) @
         Constraint_indexed Net_long_lower (netlong_rule_lb m) (investments m) @
         Constraint_indexed Net_short_upper (netshrt_rule_ub m) (investments m) @
         Constraint_indexed Net_short_lower (netshrt_rule_lb m) (investments m) \<rparr>"

text \<open>
  \<^verbatim>\<open>m.construct()\<close>. The covariance parameter is filled by \<^verbatim>\<open>cov_init\<close>, which may raise.
  With no investment, \<^verbatim>\<open>card_rule\<close> compares the integer \<^verbatim>\<open>sum(()) = 0\<close> with \<^verbatim>\<open>card\<close>: the
  result is a Python bool and not an expression, which \<^verbatim>\<open>Constraint\<close> rejects with a
  \<^verbatim>\<open>ValueError\<close>.
\<close>

definition construct :: "array_row list \<Rightarrow> cov_table \<Rightarrow> error + miqp_instance" where
  "construct array_df cov_df =
     (let inv = set_initialize (investment_strs array_df) in
      case param_by_rule (cov_init cov_df) (List.product inv inv) of
        Inl e \<Rightarrow> Inl e
      | Inr cm \<Rightarrow>
          if inv = [] then Inl ValueError
          else Inr (declare_components (build_model array_df cm)))"

definition feasible :: "miqp_instance \<Rightarrow> assignment \<Rightarrow> bool" where
  "feasible inst a =
     (list_all (\<lambda>(v, d). in_domain d (a v)) (variables inst) \<and>
      list_all (\<lambda>(n, c). holds a c) (constraints inst))"

section \<open>Solving and viewing the results\<close>

text \<open>
  The solver is an external program. \<^verbatim>\<open>opt.solve(m)\<close> returns a results object carrying a
  status and loads values into the variables of the model; the \<^verbatim>\<open>.value\<close> of a variable
  that received none is \<^verbatim>\<open>None\<close>.
\<close>

datatype status = Optimal | Infeasible | Unbounded | SolverError | TimedOut

type_synonym var_values = "var \<Rightarrow> real option"

type_synonym solver = "miqp_instance \<Rightarrow> status \<times> var_values"

text \<open>Python arithmetic: an operand that is \<^verbatim>\<open>None\<close> raises \<^verbatim>\<open>TypeError\<close>.\<close>

definition operand :: "real option \<Rightarrow> error + real" where
  "operand x = (case x of None \<Rightarrow> Inl TypeError | Some r \<Rightarrow> Inr r)"

definition arith :: "(real \<Rightarrow> real \<Rightarrow> real) \<Rightarrow> error + real \<Rightarrow> error + real \<Rightarrow> error + real" where
  "arith f x y =
     (case x of Inl e \<Rightarrow> Inl e | Inr a \<Rightarrow> (case y of Inl e \<Rightarrow> Inl e | Inr b \<Rightarrow> Inr (f a b)))"

fun py_sum :: "(error + real) list \<Rightarrow> error + real" where
  "py_sum [] = Inr 0"
| "py_sum (t # ts) =
     (case t of
        Inl e \<Rightarrow> Inl e
      | Inr x \<Rightarrow> (case py_sum ts of Inl e \<Rightarrow> Inl e | Inr y \<Rightarrow> Inr (x + y)))"

fun py_list :: "(error + 'a) list \<Rightarrow> error + 'a list" where
  "py_list [] = Inr []"
| "py_list (t # ts) =
     (case t of
        Inl e \<Rightarrow> Inl e
      | Inr x \<Rightarrow> (case py_list ts of Inl e \<Rightarrow> Inl e | Inr xs \<Rightarrow> Inr (x # xs)))"

text \<open>\<^verbatim>\<open>'%.3f' % x\<close> raises \<^verbatim>\<open>TypeError\<close> for \<^verbatim>\<open>None\<close> as well.\<close>

definition allocation_line :: "var_values \<Rightarrow> string \<Rightarrow> error + (string \<times> real \<times> real)" where
  "allocation_line v i =
     (case operand (v (Allocation_l i)) of
        Inl e \<Rightarrow> Inl e
      | Inr l \<Rightarrow> (case operand (v (Allocation_s i)) of Inl e \<Rightarrow> Inl e | Inr s \<Rightarrow> Inr (i, l, s)))"

definition net_value :: "var_values \<Rightarrow> string \<Rightarrow> error + real" where
  "net_value v i = arith (-) (operand (v (Allocation_l i))) (operand (v (Allocation_s i)))"

text \<open>
  \<^verbatim>\<open>pd.np.sqrt\<close> and the division of numpy floats do not raise: the square root of a negative
  number is \<^verbatim>\<open>nan\<close>, a division by zero is \<^verbatim>\<open>nan\<close> or an infinity (with a warning).
\<close>

datatype np_float = Finite real | NaN | PosInf | NegInf

definition np_sqrt :: "real \<Rightarrow> np_float" where
  "np_sqrt x = (if x < 0 then NaN else Finite (sqrt x))"

definition np_divide :: "real \<Rightarrow> np_float \<Rightarrow> np_float" where
  "np_divide x d =
     (case d of
        Finite y \<Rightarrow>
          if y = 0 then (if x = 0 then NaN else if 0 < x then PosInf else NegInf)
          else Finite (x / y)
      | NaN \<Rightarrow> NaN
      | PosInf \<Rightarrow> Finite 0
      | NegInf \<Rightarrow> Finite 0)"

record report =
  rs :: real
  covs :: real
  cards :: real
  tlong :: real
  clong :: real
  tshrt :: real
  cshrt :: real
  ann_sharpe :: np_float
  allocations :: "(string \<times> real \<times> real) list"

definition view_results :: "model \<Rightarrow> var_values \<Rightarrow> error + report" where
  "view_results m v =
     (case py_sum (map (\<lambda>i. arith (*) (Inr (param (returns m) i)) (net_value v i))
                       (investments m)) of
        Inl e \<Rightarrow> Inl e
      | Inr rs' \<Rightarrow>
     (case py_sum (map (\<lambda>(i, j). arith (*) (arith (*) (Inr (param (covariance_mat m) (i, j)))
                                                  (net_value v i)) (net_value v j))
                       (covariance_mat_keys m)) of
        Inl e \<Rightarrow> Inl e
      | Inr covs' \<Rightarrow>
     (case py_sum (map (\<lambda>i. arith (+) (operand (v (D_l i))) (operand (v (D_s i))))
                       (investments m)) of
        Inl e \<Rightarrow> Inl e
      | Inr cards' \<Rightarrow>
     (case py_sum (map (\<lambda>i. arith (*) (operand (v (D_l i))) (operand (v (Allocation_l i))))
                       (investments m)) of
        Inl e \<Rightarrow> Inl e
      | Inr tlong' \<Rightarrow>
     (case py_sum (map (\<lambda>i. operand (v (D_l i))) (investments m)) of
        Inl e \<Rightarrow> Inl e
      | Inr clong' \<Rightarrow>
     (case py_sum (map (\<lambda>i. arith (*) (operand (v (D_s i))) (operand (v (Allocation_s i))))
                       (investments m)) of
        Inl e \<Rightarrow> Inl e
      | Inr tshrt' \<Rightarrow>
     (case py_sum (map (\<lambda>i. operand (v (D_s i))) (investments m)) of
        Inl e \<Rightarrow> Inl e
      | Inr cshrt' \<Rightarrow>
     (case py_list (map (allocation_line v) (investments m)) of
        Inl e \<Rightarrow> Inl e
      | Inr lines \<Rightarrow>
          Inr \<lparr> rs = rs', covs = covs', cards = cards', tlong = tlong', clong = clong',
                tshrt = tshrt', cshrt = cshrt',
                ann_sharpe = np_divide (sqrt 252 * rs') (np_sqrt covs'),
                allocations = lines \<rparr>))))))))"

text \<open>
  The script: build the model, solve, view the results. The results object returned by
  \<^verbatim>\<open>opt.solve\<close> is bound to a name and not read again.
\<close>

definition main :: "array_row list \<Rightarrow> cov_table \<Rightarrow> solver \<Rightarrow> error + report" where
  "main array_df cov_df opt_solve =
     (case construct array_df cov_df of
        Inl e \<Rightarrow> Inl e
      | Inr inst \<Rightarrow> (case opt_solve inst of (results, v) \<Rightarrow> view_results (params inst) v))"

text \<open>The variable values after a solve that loaded the assignment \<open>a\<close>.\<close>

definition loaded :: "assignment \<Rightarrow> var_values" where
  "loaded a = (\<lambda>x. Some (a x))"

text \<open>The variable values after a solve that loaded nothing.\<close>

definition nothing_loaded :: var_values where
  "nothing_loaded = (\<lambda>x. None)"

section \<open>The short bound as the specification words it\<close>

text \<open>
  The specification asks for the per-asset short bound in the form
  \<open>s\<^sub>i \<le> d\<^sub>i\<^sup>s \<cdot> shortUpperBound\<^sub>i\<close>, the ceiling being the asset's lower exposure bound, which
  its data model takes as a non-negative magnitude. This relation is the one to compare
  \<open>sflag_rule\<close> with.
\<close>

definition short_bound_spec :: "model \<Rightarrow> string \<Rightarrow> relation" where
  "short_bound_spec m i =
     Le (Var (Allocation_s i)) (Mul (Var (D_s i)) (Num (param (lower_asset_bounds m) i)))"

section \<open>Reference inputs\<close>

text \<open>
  Two assets with the data of the specification's end-to-end scenario (lower bounds given
  as magnitudes), the same universe with a signed lower bound for the second asset, and
  two covariance tables, the second one not symmetric.
\<close>

definition example_df :: "array_row list" where
  "example_df = [(''A'', 1 / 1000, 1 / 10, 1 / 10), (''B'', 2 / 1000, 1 / 10, 1 / 10)]"

definition signed_df :: "array_row list" where
  "signed_df = [(''A'', 1 / 1000, 1 / 10, 1 / 10), (''B'', 2 / 1000, 1, - 1)]"

definition example_cov :: cov_table where
  "example_cov = map_of
     [((''A'', ''A''), 1 / 10000), ((''A'', ''B''), 0),
      ((''B'', ''A''), 0), ((''B'', ''B''), 2 / 10000)]"

definition asym_cov :: cov_table where
  "asym_cov = map_of
     [((''A'', ''A''), 1), ((''A'', ''B''), 2),
      ((''B'', ''A''), 3), ((''B'', ''B''), 1)]"

text \<open>A covariance table of assets without risk.\<close>

definition flat_cov :: cov_table where
  "flat_cov = map_of
     [((''A'', ''A''), 0), ((''A'', ''B''), 0),
      ((''B'', ''A''), 0), ((''B'', ''B''), 0)]"

text \<open>Assignments: nothing held; asset B short by one half; asset A long by one tenth.\<close>

definition nothing_held :: assignment where
  "nothing_held = (\<lambda>x. 0)"

definition short_B :: assignment where
  "short_B = (\<lambda>x. 0)(Allocation_s ''B'' := 1 / 2, D_s ''B'' := 1)"

definition long_A :: assignment where
  "long_A = (\<lambda>x. 0)(Allocation_l ''A'' := 1 / 10, D_l ''A'' := 1)"

text \<open>Asset A short by one twentieth with its short indicator set.\<close>

definition short_A :: assignment where
  "short_A = (\<lambda>x. 0)(Allocation_s ''A'' := 1 / 20, D_s ''A'' := 1)"

text \<open>Asset A long by one quarter while its long indicator is zero.\<close>

definition unflagged_long_A :: assignment where
  "unflagged_long_A = (\<lambda>x. 0)(Allocation_l ''A'' := 1 / 4)"

section \<open>Facts about sets, dictionaries and parameters\<close>

lemma set_initialize_aux:
  "set (fold (\<lambda>x s. if x \<in> set s then s else s @ [x]) xs acc) = set xs \<union> set acc
   \<and> (distinct acc \<longrightarrow> distinct (fold (\<lambda>x s. if x \<in> set s then s else s @ [x]) xs acc))"
  by (induction xs arbitrary: acc) auto

lemma set_set_initialize: "set (set_initialize xs) = set xs"
  by (simp add: set_initialize_def set_initialize_aux)

lemma distinct_set_initialize: "distinct (set_initialize xs)"
  by (simp add: set_initialize_def set_initialize_aux)

lemma set_initialize_distinct_aux:
  "distinct (acc @ xs) \<Longrightarrow> fold (\<lambda>x s. if x \<in> set s then s else s @ [x]) xs acc = acc @ xs"
  by (induction xs arbitrary: acc) auto

lemma set_initialize_distinct: "distinct xs \<Longrightarrow> set_initialize xs = xs"
  using set_initialize_distinct_aux [of "[]" xs] by (simp add: set_initialize_def)

lemma dict_fold_aux:
  "fold (\<lambda>(k, v) d. d(k \<mapsto> v)) kvs d k =
     (case map_of (rev kvs) k of None \<Rightarrow> d k | Some v \<Rightarrow> Some v)"
  by (induction kvs arbitrary: d) (auto split: option.splits)

lemma dict_zip_eq: "dict_zip ks vs = map_of (rev (zip ks vs))"
  by (rule ext) (simp add: dict_zip_def dict_fold_aux split: option.splits)

lemma dict_zip_defined:
  assumes "length ks = length vs" and "k \<in> set ks"
  shows "\<exists>v. dict_zip ks vs k = Some v \<and> (k, v) \<in> set (zip ks vs)"
proof -
  have "k \<in> fst ` set (rev (zip ks vs))"
    using assms by (simp add: map_fst_zip flip: set_map)
  then obtain v where "map_of (rev (zip ks vs)) k = Some v"
    by (metis map_of_eq_None_iff not_Some_eq)
  moreover from this have "(k, v) \<in> set (zip ks vs)"
    using map_of_SomeD by fastforce
  ultimately show ?thesis by (simp add: dict_zip_eq)
qed

lemma cov_init_Inr: "cov_init cov_df i j = Inr c \<longleftrightarrow> cov_df (i, j) = Some c"
  by (simp add: cov_init_def split: option.splits)

lemma cov_init_Inl: "cov_init cov_df i j = Inl e \<longleftrightarrow> cov_df (i, j) = None \<and> e = KeyError"
  by (auto simp: cov_init_def split: option.splits)

lemma param_by_rule_Inr:
  "param_by_rule (cov_init cov_df) ks = Inr p \<Longrightarrow> k \<in> set ks \<Longrightarrow>
     p k = cov_df k \<and> cov_df k \<noteq> None"
proof (induction ks arbitrary: p)
  case Nil
  then show ?case by simp
next
  case (Cons x ks)
  obtain i j where x: "x = (i, j)" by (cases x)
  from Cons.prems(1) obtain c q where c: "cov_df (i, j) = Some c"
    and q: "param_by_rule (cov_init cov_df) ks = Inr q" and p: "p = q((i, j) \<mapsto> c)"
    by (auto simp: x cov_init_Inr split: sum.splits)
  show ?case
  proof (cases "k = (i, j)")
    case True
    then show ?thesis by (simp add: p c)
  next
    case False
    with Cons.prems(2) x have "k \<in> set ks" by simp
    from Cons.IH [OF q this] False show ?thesis by (simp add: p)
  qed
qed

lemma param_by_rule_total:
  "(\<And>k. k \<in> set ks \<Longrightarrow> cov_df k \<noteq> None) \<Longrightarrow> \<exists>p. param_by_rule (cov_init cov_df) ks = Inr p"
proof (induction ks)
  case Nil
  then show ?case by simp
next
  case (Cons x ks)
  obtain i j where x: "x = (i, j)" by (cases x)
  from Cons.prems [of x] obtain c where "cov_init cov_df i j = Inr c"
    by (auto simp: x cov_init_Inr)
  moreover from Cons obtain q where "param_by_rule (cov_init cov_df) ks = Inr q" by auto
  ultimately show ?case by (simp add: x)
qed

lemma param_by_rule_error:
  "param_by_rule (cov_init cov_df) ks = Inl e \<Longrightarrow> e = KeyError \<and> (\<exists>k\<in>set ks. cov_df k = None)"
proof (induction ks)
  case Nil
  then show ?case by simp
next
  case (Cons x ks)
  obtain i j where x: "x = (i, j)" by (cases x)
  from Cons show ?case
    by (auto simp: x cov_init_Inl split: sum.splits)
qed

section \<open>Facts about the construction\<close>

lemma construct_Inr:
  assumes "construct array_df cov_df = Inr inst"
  obtains cm where "inst = declare_components (build_model array_df cm)"
    and "investments (params inst) = set_initialize (investment_strs array_df)"
    and "investments (params inst) \<noteq> []"
    and "\<And>i j. i \<in> set (investments (params inst)) \<Longrightarrow> j \<in> set (investments (params inst))
           \<Longrightarrow> cm (i, j) = cov_df (i, j) \<and> cov_df (i, j) \<noteq> None"
proof -
  let ?inv = "set_initialize (investment_strs array_df)"
  from assms obtain cm where cm: "param_by_rule (cov_init cov_df) (List.product ?inv ?inv) = Inr cm"
    and ne: "?inv \<noteq> []" and inst: "inst = declare_components (build_model array_df cm)"
    by (auto simp: construct_def Let_def split: sum.splits if_splits)
  have inv: "investments (params inst) = ?inv"
    by (simp add: inst declare_components_def build_model_def)
  show thesis
  proof (rule that [OF inst inv])
    show "investments (params inst) \<noteq> []" using ne inv by simp
  next
    fix i j
    assume "i \<in> set (investments (params inst))" "j \<in> set (investments (params inst))"
    then have "(i, j) \<in> set (List.product ?inv ?inv)" by (simp add: inv)
    from param_by_rule_Inr [OF cm this] show "cm (i, j) = cov_df (i, j) \<and> cov_df (i, j) \<noteq> None" .
  qed
qed

lemma construct_total:
  assumes "array_df \<noteq> []"
    and "\<And>i j. i \<in> set (investment_strs array_df) \<Longrightarrow> j \<in> set (investment_strs array_df)
           \<Longrightarrow> cov_df (i, j) \<noteq> None"
  shows "\<exists>inst. construct array_df cov_df = Inr inst"
proof -
  let ?inv = "set_initialize (investment_strs array_df)"
  have "\<And>k. k \<in> set (List.product ?inv ?inv) \<Longrightarrow> cov_df k \<noteq> None"
    using assms(2) by (auto simp: set_set_initialize)
  then have "\<exists>p. param_by_rule (cov_init cov_df) (List.product ?inv ?inv) = Inr p"
    by (rule param_by_rule_total)
  then obtain cm
    where "param_by_rule (cov_init cov_df) (List.product ?inv ?inv) = Inr cm" by blast
  moreover have "?inv \<noteq> []"
    using assms(1) set_set_initialize [of "investment_strs array_df"]
    by (cases array_df) (auto simp: investment_strs_def)
  ultimately show ?thesis by (simp add: construct_def Let_def)
qed

lemma construct_params_defined:
  assumes "construct array_df cov_df = Inr inst" and "i \<in> set (investments (params inst))"
  shows "\<exists>r u l. returns (params inst) i = Some r \<and> upper_asset_bounds (params inst) i = Some u
           \<and> lower_asset_bounds (params inst) i = Some l
           \<and> r \<in> set (return_floats array_df) \<and> u \<in> set (ubounds array_df)
           \<and> l \<in> set (lbounds array_df)"
proof -
  from assms(1) obtain cm where inst: "inst = declare_components (build_model array_df cm)"
    and inv: "investments (params inst) = set_initialize (investment_strs array_df)"
    by (rule construct_Inr) blast
  from assms(2) inv have i: "i \<in> set (investment_strs array_df)"
    by (simp add: set_set_initialize)
  have len: "length (investment_strs array_df) = length (return_floats array_df)"
    "length (investment_strs array_df) = length (ubounds array_df)"
    "length (investment_strs array_df) = length (lbounds array_df)"
    by (simp_all add: investment_strs_def return_floats_def ubounds_def lbounds_def)
  from dict_zip_defined [OF len(1) i] dict_zip_defined [OF len(2) i] dict_zip_defined [OF len(3) i]
  show ?thesis
    by (auto simp: inst declare_components_def build_model_def dest: set_zip_rightD)
qed

lemma construct_cov_defined:
  assumes "construct array_df cov_df = Inr inst"
    and "i \<in> set (investments (params inst))" and "j \<in> set (investments (params inst))"
  shows "\<exists>c. covariance_mat (params inst) (i, j) = Some c \<and> cov_df (i, j) = Some c"
proof -
  from assms(1) obtain cm where inst: "inst = declare_components (build_model array_df cm)"
    and cm: "\<And>i j. i \<in> set (investments (params inst)) \<Longrightarrow> j \<in> set (investments (params inst))
           \<Longrightarrow> cm (i, j) = cov_df (i, j) \<and> cov_df (i, j) \<noteq> None"
    by (rule construct_Inr) blast
  from cm [OF assms(2,3)] show ?thesis
    by (auto simp: inst declare_components_def build_model_def)
qed

section \<open>The reference inputs build\<close>

lemma construct_reference:
  "\<exists>inst. construct example_df example_cov = Inr inst"
  "\<exists>inst. construct signed_df example_cov = Inr inst"
  "\<exists>inst. construct example_df asym_cov = Inr inst"
  by (simp_all add: construct_def example_df_def signed_df_def example_cov_def asym_cov_def
      set_initialize_def investment_strs_def cov_init_def)

lemma investments_reference [simp]:
  "investments (build_model example_df cm) = [''A'', ''B'']"
  "investments (build_model signed_df cm) = [''A'', ''B'']"
  by (simp_all add: build_model_def example_df_def signed_df_def set_initialize_def
      investment_strs_def)

section \<open>Size of the built instance\<close>

text \<open>
  Claim C5, as amended. For every input from which an instance is built, with \<open>n\<close> the
  number of members of \<^verbatim>\<open>m.investments\<close> (the distinct tickers), the instance has exactly
  one objective, exactly \<open>7 \<cdot> n + 1\<close> constraints and exactly \<open>4 \<cdot> n\<close> decision variables.
  The constraints are the three per-asset families (long bound, short bound,
  exclusivity), the single cardinality constraint, and the four aggregate constraints,
  each of which is declared over \<^verbatim>\<open>m.investments\<close> and so repeated once per asset.
\<close>

theorem constraint_count:
  assumes "construct array_df cov_df = Inr inst"
  shows "length (objectives inst) = 1
    \<and> length (constraints inst) = 7 * length (investments (params inst)) + 1
    \<and> length (variables inst) = 4 * length (investments (params inst))
    \<and> length (investments (params inst)) = card (set (investment_strs array_df))"
proof -
  from assms obtain cm where inst: "inst = declare_components (build_model array_df cm)"
    and inv: "investments (params inst) = set_initialize (investment_strs array_df)"
    by (rule construct_Inr) blast
  have "length (investments (params inst)) = card (set (investment_strs array_df))"
    using distinct_card [OF distinct_set_initialize, of "investment_strs array_df"]
    by (simp add: inv set_set_initialize)
  then show ?thesis
    by (simp add: inst declare_components_def Var_indexed_def Constraint_indexed_def)
qed

text \<open>The two reference assets give 15 constraints and 8 variables.\<close>

theorem constraint_count_witness:
  "\<exists>inst. construct example_df example_cov = Inr inst
     \<and> length (objectives inst) = 1 \<and> length (constraints inst) = 15
     \<and> length (variables inst) = 8 \<and> length (investments (params inst)) = 2"
proof -
  from construct_reference(1) obtain inst where c: "construct example_df example_cov = Inr inst" ..
  then obtain cm where inst: "inst = declare_components (build_model example_df cm)"
    by (rule construct_Inr) blast
  have "length (investments (params inst)) = 2"
    by (simp add: inst declare_components_def)
  with constraint_count [OF c] c show ?thesis by simp
qed

text \<open>
  The count \<open>5 \<cdot> n + 3\<close> of the claim as first stated fails for the two reference assets:
  the instance has 15 constraints, not 13.
\<close>

theorem constraint_count_counterexample:
  "case construct example_df example_cov of
     Inl e \<Rightarrow> False
   | Inr inst \<Rightarrow> length (investments (params inst)) = 2 \<and> length (constraints inst) = 15
       \<and> length (constraints inst) \<noteq> 5 * length (investments (params inst)) + 3"
proof -
  from construct_reference(1) obtain inst where c: "construct example_df example_cov = Inr inst" ..
  then obtain cm where inst: "inst = declare_components (build_model example_df cm)"
    by (rule construct_Inr) blast
  show ?thesis
    by (simp add: c) (simp add: inst declare_components_def Constraint_indexed_def)
qed

section \<open>Values of the reference parameters\<close>

lemma params_reference [simp]:
  "param (returns (build_model example_df cm)) ''A'' = 1 / 1000"
  "param (returns (build_model example_df cm)) ''B'' = 2 / 1000"
  "param (lower_asset_bounds (build_model example_df cm)) ''A'' = 1 / 10"
  "param (lower_asset_bounds (build_model example_df cm)) ''B'' = 1 / 10"
  "param (lower_asset_bounds (build_model signed_df cm)) ''A'' = 1 / 10"
  "param (lower_asset_bounds (build_model signed_df cm)) ''B'' = - 1"
  "param (upper_asset_bounds (build_model signed_df cm)) ''A'' = 1 / 10"
  "param (upper_asset_bounds (build_model signed_df cm)) ''B'' = 1"
  "param (returns (build_model signed_df cm)) ''A'' = 1 / 1000"
  "param (returns (build_model signed_df cm)) ''B'' = 2 / 1000"
  by (simp_all add: build_model_def example_df_def signed_df_def param_def dict_zip_def
      investment_strs_def return_floats_def ubounds_def lbounds_def)

lemma param_example_cov [simp]:
  "param example_cov (''A'', ''A'') = 1 / 10000"
  "param example_cov (''A'', ''B'') = 0"
  "param example_cov (''B'', ''A'') = 0"
  "param example_cov (''B'', ''B'') = 2 / 10000"
  by (simp_all add: param_def example_cov_def)

lemma params_declare [simp]: "params (declare_components m) = m"
  by (simp add: declare_components_def)

section \<open>The objective\<close>

lemma sum_list_product:
  "sum_list (map f (List.product xs ys)) = (\<Sum>x\<leftarrow>xs. \<Sum>y\<leftarrow>ys. f (x, y))"
  by (induction xs) (simp_all add: comp_def)

lemma eval_net [simp]: "eval a (net i) = a (Allocation_l i) - a (Allocation_s i)"
  by (simp add: net_def)

lemma eval_obj_rule:
  "eval a (obj_rule m) =
     (\<Sum>i\<leftarrow>investments m. param (returns m) i * (a (Allocation_l i) - a (Allocation_s i)))
     - rho * (\<Sum>i\<leftarrow>investments m. \<Sum>j\<leftarrow>investments m.
         param (covariance_mat m) (i, j) * (a (Allocation_l i) - a (Allocation_s i))
           * (a (Allocation_l j) - a (Allocation_s j)))"
proof -
  have "(\<lambda>x. eval a (case x of (i, j) \<Rightarrow>
           Mul (Mul (Num (param (covariance_mat m) (i, j))) (net i)) (net j)))
      = (\<lambda>(i, j). param (covariance_mat m) (i, j) * (a (Allocation_l i) - a (Allocation_s i))
           * (a (Allocation_l j) - a (Allocation_s j)))"
    by (rule ext) (simp split: prod.splits)
  then show ?thesis
    by (simp add: obj_rule_def covariance_mat_keys_def comp_def sum_list_product)
qed

text \<open>
  Claim C10. The built instance has the single objective \<^verbatim>\<open>m.OBJ\<close>, it is maximized, and
  under every assignment its value is
  \<open>\<Sum>\<^sub>i r\<^sub>i \<cdot> (l\<^sub>i - s\<^sub>i) - \<rho> \<cdot> \<Sum>\<^sub>i \<Sum>\<^sub>j Cov(i, j) \<cdot> (l\<^sub>i - s\<^sub>i) \<cdot> (l\<^sub>j - s\<^sub>j)\<close>,
  where \<open>i\<close> and \<open>j\<close> range over the tickers of the input, the double sum over all their
  ordered pairs, \<open>r\<^sub>i\<close> is \<^verbatim>\<open>m.returns[i]\<close>, \<open>Cov(i, j)\<close> the entry of the covariance table and
  \<open>\<rho>\<close> the constant \<^verbatim>\<open>rho\<close>.
\<close>

theorem objective_value:
  assumes "construct array_df cov_df = Inr inst"
  shows "\<exists>e. objectives inst = [(maximize, e)] \<and>
    (\<forall>a. eval a e =
      (\<Sum>i\<in>set (investment_strs array_df).
          param (returns (params inst)) i * (a (Allocation_l i) - a (Allocation_s i)))
      - rho * (\<Sum>i\<in>set (investment_strs array_df). \<Sum>j\<in>set (investment_strs array_df).
          param cov_df (i, j) * (a (Allocation_l i) - a (Allocation_s i))
            * (a (Allocation_l j) - a (Allocation_s j))))"
proof -
  let ?m = "params inst"
  let ?I = "investments ?m"
  from assms obtain cm where inst: "inst = declare_components (build_model array_df cm)"
    and inv: "?I = set_initialize (investment_strs array_df)"
    by (rule construct_Inr) blast
  have d: "distinct ?I" and s: "set ?I = set (investment_strs array_df)"
    by (simp_all add: inv distinct_set_initialize set_set_initialize)
  have obj: "objectives inst = [(maximize, obj_rule ?m)]"
    by (simp add: inst declare_components_def)
  have cov: "param (covariance_mat ?m) (i, j) = param cov_df (i, j)"
    if "i \<in> set ?I" "j \<in> set ?I" for i j
    using construct_cov_defined [OF assms that] by (auto simp: param_def)
  have "eval a (obj_rule ?m) =
      (\<Sum>i\<in>set ?I. param (returns ?m) i * (a (Allocation_l i) - a (Allocation_s i)))
      - rho * (\<Sum>i\<in>set ?I. \<Sum>j\<in>set ?I.
          param cov_df (i, j) * (a (Allocation_l i) - a (Allocation_s i))
            * (a (Allocation_l j) - a (Allocation_s j)))" for a
    by (simp add: eval_obj_rule sum_list_distinct_conv_sum_set [OF d] cov)
  then show ?thesis by (simp add: obj s)
qed

text \<open>
  For the reference universe with asset A long by one tenth the objective is
  \<open>0.001 \<cdot> 0.1 - 0.5 \<cdot> 0.0001 \<cdot> 0.01\<close>.
\<close>

theorem objective_value_witness:
  "\<exists>inst e. construct example_df example_cov = Inr inst
     \<and> objectives inst = [(maximize, e)] \<and> eval long_A e = 199 / 2000000"
proof -
  from construct_reference(1) obtain inst where c: "construct example_df example_cov = Inr inst" ..
  then obtain cm where inst: "inst = declare_components (build_model example_df cm)"
    by (rule construct_Inr) blast
  from objective_value [OF c] obtain e where e: "objectives inst = [(maximize, e)]"
    and v: "eval long_A e =
      (\<Sum>i\<in>set (investment_strs example_df).
          param (returns (params inst)) i * (long_A (Allocation_l i) - long_A (Allocation_s i)))
      - rho * (\<Sum>i\<in>set (investment_strs example_df). \<Sum>j\<in>set (investment_strs example_df).
          param example_cov (i, j) * (long_A (Allocation_l i) - long_A (Allocation_s i))
            * (long_A (Allocation_l j) - long_A (Allocation_s j)))"
    by blast
  have "set (investment_strs example_df) = {''A'', ''B''}"
    by (simp add: investment_strs_def example_df_def)
  with v have "eval long_A e = 199 / 2000000"
    by (simp add: inst long_A_def rho_def)
  with c e show ?thesis by blast
qed

section \<open>Feasible assignments\<close>

lemma feasible_var:
  "feasible inst a \<Longrightarrow> (v, d) \<in> set (variables inst) \<Longrightarrow> in_domain d (a v)"
  by (auto simp: feasible_def list_all_iff)

lemma feasible_con:
  "feasible inst a \<Longrightarrow> (n, c) \<in> set (constraints inst) \<Longrightarrow> holds a c"
  by (auto simp: feasible_def list_all_iff)

lemma variables_member:
  assumes "i \<in> set (investments m)"
  shows "(Allocation_s i, NonNegativeReals) \<in> set (variables (declare_components m))"
    and "(Allocation_l i, NonNegativeReals) \<in> set (variables (declare_components m))"
    and "(D_l i, Boolean) \<in> set (variables (declare_components m))"
    and "(D_s i, Boolean) \<in> set (variables (declare_components m))"
  using assms by (auto simp: declare_components_def Var_indexed_def)

lemma constraints_member:
  assumes "i \<in> set (investments m)"
  shows "(Cons_long_invest_ubs i, lflag_rule m i) \<in> set (constraints (declare_components m))"
    and "(Cons_shrt_invest_lbs i, sflag_rule m i) \<in> set (constraints (declare_components m))"
    and "(Cons_cardinality_ubs, card_rule m) \<in> set (constraints (declare_components m))"
    and "(Cons_long_shrt_none i, binary_rule m i) \<in> set (constraints (declare_components m))"
    and "(Net_long_upper i, netlong_rule_ub m i) \<in> set (constraints (declare_components m))"
    and "(Net_long_lower i, netlong_rule_lb m i) \<in> set (constraints (declare_components m))"
    and "(Net_short_upper i, netshrt_rule_ub m i) \<in> set (constraints (declare_components m))"
    and "(Net_short_lower i, netshrt_rule_lb m i) \<in> set (constraints (declare_components m))"
  using assms by (auto simp: declare_components_def Constraint_indexed_def)

lemma feasible_domains:
  assumes "feasible (declare_components m) a" and "i \<in> set (investments m)"
  shows "0 \<le> a (Allocation_s i)" and "0 \<le> a (Allocation_l i)"
    and "a (D_l i) = 0 \<or> a (D_l i) = 1" and "a (D_s i) = 0 \<or> a (D_s i) = 1"
  using variables_member [OF assms(2), THEN feasible_var [OF assms(1)]] by simp_all

lemma feasible_constraints:
  assumes "feasible (declare_components m) a" and "i \<in> set (investments m)"
  shows "holds a (lflag_rule m i)" and "holds a (sflag_rule m i)"
    and "holds a (card_rule m)" and "holds a (binary_rule m i)"
    and "holds a (netlong_rule_ub m i)" and "holds a (netlong_rule_lb m i)"
    and "holds a (netshrt_rule_ub m i)" and "holds a (netshrt_rule_lb m i)"
  using constraints_member [OF assms(2), THEN feasible_con [OF assms(1)]] by simp_all

lemma holds_sflag_rule:
  "holds a (sflag_rule m i) \<longleftrightarrow>
     a (Allocation_s i) \<le> a (D_s i) * (- param (lower_asset_bounds m) i)"
  by (simp add: sflag_rule_def) linarith

lemma sflag_forces_zero:
  assumes "feasible (declare_components m) a" and "i \<in> set (investments m)"
    and "0 \<le> param (lower_asset_bounds m) i"
  shows "a (Allocation_s i) = 0" and "0 < param (lower_asset_bounds m) i \<Longrightarrow> a (D_s i) = 0"
proof -
  let ?lb = "param (lower_asset_bounds m) i"
  from feasible_constraints(2) [OF assms(1,2)]
  have le: "a (Allocation_s i) \<le> a (D_s i) * (- ?lb)" by (simp add: holds_sflag_rule)
  from feasible_domains [OF assms(1,2)]
  have s: "0 \<le> a (Allocation_s i)" and d: "a (D_s i) = 0 \<or> a (D_s i) = 1" by simp_all
  from d assms(3) have "a (D_s i) * (- ?lb) \<le> 0" by auto
  with le s show "a (Allocation_s i) = 0" by linarith
  show "a (D_s i) = 0" if "0 < ?lb"
  proof (rule ccontr)
    assume "a (D_s i) \<noteq> 0"
    with d have "a (D_s i) = 1" by simp
    with le s that show False by simp
  qed
qed

lemma feasible_short_B: "feasible (declare_components (build_model signed_df cm)) short_B"
  by (simp add: feasible_def declare_components_def Var_indexed_def Constraint_indexed_def
      lflag_rule_def sflag_rule_def card_rule_def binary_rule_def
      netlong_rule_ub_def netlong_rule_lb_def netshrt_rule_ub_def netshrt_rule_lb_def short_B_def
      card_limit_def net_upper_long_bound_def net_upper_short_bound_def net_lower_short_bound_def)

lemma lower_bound_from_data:
  assumes "construct array_df cov_df = Inr inst" and "i \<in> set (investments (params inst))"
  shows "param (lower_asset_bounds (params inst)) i \<in> set (lbounds array_df)"
  using construct_params_defined [OF assms] by (auto simp: param_def)

section \<open>Short positions under non-negative lower bounds\<close>

text \<open>
  Claim C3. In the instance as built, for every asset \<open>i\<close> whose \<^verbatim>\<open>lower_asset_bounds[i]\<close> is
  non-negative, every feasible assignment (one that respects the variable domains and
  satisfies every constraint) has short allocation \<open>s\<^sub>i = 0\<close>; when the bound is strictly
  positive the short indicator \<open>d\<^sub>i\<^sup>s\<close> is \<open>0\<close> as well. The constraint
  \<open>- s\<^sub>i \<ge> d\<^sub>i\<^sup>s \<cdot> lowerBound\<^sub>i\<close> and the domain \<open>s\<^sub>i \<ge> 0\<close> force it.
\<close>

theorem short_bound_forces_zero:
  assumes "construct array_df cov_df = Inr inst" and "feasible inst a"
    and "i \<in> set (investments (params inst))"
    and "0 \<le> param (lower_asset_bounds (params inst)) i"
  shows "a (Allocation_s i) = 0
    \<and> (0 < param (lower_asset_bounds (params inst)) i \<longrightarrow> a (D_s i) = 0)"
proof -
  from assms(1) obtain cm where inst: "inst = declare_components (build_model array_df cm)"
    by (rule construct_Inr) blast
  from assms(2-4) sflag_forces_zero [of "build_model array_df cm" a i]
  show ?thesis by (simp add: inst)
qed

text \<open>
  With the signed reference data, asset A has the lower bound \<open>0.1\<close>; the assignment that is
  short in B only is feasible and holds no short position in A.
\<close>

theorem short_bound_forces_zero_witness:
  "\<exists>inst. construct signed_df example_cov = Inr inst \<and> feasible inst short_B
     \<and> ''A'' \<in> set (investments (params inst))
     \<and> 0 < param (lower_asset_bounds (params inst)) ''A''
     \<and> short_B (Allocation_s ''A'') = 0 \<and> short_B (D_s ''A'') = 0"
proof -
  from construct_reference(2) obtain inst where c: "construct signed_df example_cov = Inr inst" ..
  then obtain cm where inst: "inst = declare_components (build_model signed_df cm)"
    by (rule construct_Inr) blast
  have f: "feasible inst short_B" by (simp add: inst feasible_short_B)
  have i: "''A'' \<in> set (investments (params inst))" by (simp add: inst)
  have l: "0 \<le> param (lower_asset_bounds (params inst)) ''A''" by (simp add: inst)
  have l': "0 < param (lower_asset_bounds (params inst)) ''A''" by (simp add: inst)
  from short_bound_forces_zero [OF c f i l] l' c f i show ?thesis by blast
qed

section \<open>Infeasibility under non-negative lower bounds\<close>

text \<open>
  Claim C4. With \<^verbatim>\<open>net_lower_short_bound = 0.5\<close> and input data whose per-asset lower bounds
  are all non-negative, the constraint set of the instance that is built has no feasible
  assignment: every \<open>s\<^sub>i\<close> is forced to \<open>0\<close>, while the net-short lower-bound constraint asks
  for \<open>\<Sum>\<^sub>i s\<^sub>i \<ge> 0.5\<close>.
\<close>

theorem nonnegative_lower_bounds_infeasible:
  assumes "construct array_df cov_df = Inr inst" and "\<forall>l\<in>set (lbounds array_df). 0 \<le> l"
  shows "net_lower_short_bound = 1 / 2 \<and> \<not> (\<exists>a. feasible inst a)"
proof -
  let ?m = "params inst"
  from assms(1) obtain cm where inst: "inst = declare_components (build_model array_df cm)"
    and ne: "investments ?m \<noteq> []"
    by (rule construct_Inr) blast
  have m: "inst = declare_components ?m" by (simp add: inst)
  have "\<not> feasible inst a" for a
  proof
    assume f: "feasible inst a"
    then have f': "feasible (declare_components ?m) a" using m by simp
    have "a (Allocation_s i) = 0" if "i \<in> set (investments ?m)" for i
    proof -
      from lower_bound_from_data [OF assms(1) that] assms(2)
      have "0 \<le> param (lower_asset_bounds ?m) i" by blast
      from sflag_forces_zero(1) [OF f' that this] show ?thesis .
    qed
    then have "(\<Sum>i\<leftarrow>investments ?m. a (Allocation_s i)) = 0"
      by (simp cong: map_cong)
    moreover from ne obtain i where "i \<in> set (investments ?m)" by (cases "investments ?m") auto
    from feasible_constraints(8) [OF f' this]
    have "net_lower_short_bound \<le> (\<Sum>i\<leftarrow>investments ?m. a (Allocation_s i))"
      by (simp add: netshrt_rule_lb_def comp_def)
    ultimately show False by (simp add: net_lower_short_bound_def)
  qed
  then show ?thesis by (simp add: net_lower_short_bound_def)
qed

text \<open>The reference data of the end-to-end scenario has the lower bounds \<open>0.1\<close> and \<open>0.1\<close>.\<close>

theorem nonnegative_lower_bounds_infeasible_witness:
  "\<exists>inst. construct example_df example_cov = Inr inst
     \<and> list_all (\<lambda>l. 0 \<le> l) (lbounds example_df) \<and> \<not> (\<exists>a. feasible inst a)"
proof -
  from construct_reference(1) obtain inst where c: "construct example_df example_cov = Inr inst" ..
  have l: "\<forall>l\<in>set (lbounds example_df). 0 \<le> l" by (simp add: lbounds_def example_df_def)
  from nonnegative_lower_bounds_infeasible [OF c l] c l show ?thesis
    by (auto simp: list_all_iff)
qed

section \<open>The per-asset short bound\<close>

lemma constraints_named_shrt:
  "{c. (Cons_shrt_invest_lbs i, c) \<in> set (constraints (declare_components m))} =
     (if i \<in> set (investments m) then {sflag_rule m i} else {})"
  by (auto simp: declare_components_def Constraint_indexed_def)

lemma constraints_named_net_long_lower:
  "{c. (Net_long_lower i, c) \<in> set (constraints (declare_components m))} =
     (if i \<in> set (investments m) then {netlong_rule_lb m i} else {})"
  by (auto simp: declare_components_def Constraint_indexed_def)

text \<open>
  Claim C1, as amended. For every asset \<open>i\<close>, the built instance contains, under the name
  \<^verbatim>\<open>cons_shrt_invest_lbs[i]\<close>, exactly the constraint \<open>- s\<^sub>i \<ge> d\<^sub>i\<^sup>s \<cdot> lowerBound\<^sub>i\<close>, where
  \<open>lowerBound\<^sub>i\<close> is \<^verbatim>\<open>m.lower_asset_bounds[i]\<close>. It is equivalent to
  \<open>s\<^sub>i \<le> d\<^sub>i\<^sup>s \<cdot> (- lowerBound\<^sub>i)\<close>: the short allocation magnitude is bounded above by the
  negated lower bound when the short indicator is set, and by \<open>0\<close> when it is not. The
  bound is a short exposure ceiling when the lower bound is given as a signed,
  non-positive number.
\<close>

theorem short_bound_as_built:
  assumes "construct array_df cov_df = Inr inst" and "i \<in> set (investments (params inst))"
  shows "{c. (Cons_shrt_invest_lbs i, c) \<in> set (constraints inst)} =
      {Ge (Neg (Var (Allocation_s i)))
          (Mul (Var (D_s i)) (Num (param (lower_asset_bounds (params inst)) i)))}
    \<and> (\<forall>a. holds a (Ge (Neg (Var (Allocation_s i)))
                 (Mul (Var (D_s i)) (Num (param (lower_asset_bounds (params inst)) i)))) \<longleftrightarrow>
             a (Allocation_s i) \<le> a (D_s i) * (- param (lower_asset_bounds (params inst)) i))"
proof -
  from assms(1) obtain cm where inst: "inst = declare_components (build_model array_df cm)"
    by (rule construct_Inr) blast
  have "{c. (Cons_shrt_invest_lbs i, c) \<in> set (constraints inst)} = {sflag_rule (params inst) i}"
    using assms(2) by (simp add: inst constraints_named_shrt)
  moreover have "holds a (sflag_rule (params inst) i) \<longleftrightarrow>
      a (Allocation_s i) \<le> a (D_s i) * (- param (lower_asset_bounds (params inst)) i)" for a
    by (rule holds_sflag_rule)
  ultimately show ?thesis by (simp add: sflag_rule_def)
qed

text \<open>
  With the signed reference data the lower bound of asset B is \<open>- 1\<close>: the constraint reads
  \<open>- s\<^sub>B \<ge> d\<^sub>B\<^sup>s \<cdot> (- 1)\<close>, and being short in B by one half satisfies it.
\<close>

theorem short_bound_as_built_witness:
  "\<exists>inst. construct signed_df example_cov = Inr inst
     \<and> ''B'' \<in> set (investments (params inst))
     \<and> {c. (Cons_shrt_invest_lbs ''B'', c) \<in> set (constraints inst)} =
         {Ge (Neg (Var (Allocation_s ''B''))) (Mul (Var (D_s ''B'')) (Num (- 1)))}
     \<and> holds short_B (Ge (Neg (Var (Allocation_s ''B''))) (Mul (Var (D_s ''B'')) (Num (- 1))))"
proof -
  from construct_reference(2) obtain inst where c: "construct signed_df example_cov = Inr inst" ..
  then obtain cm where inst: "inst = declare_components (build_model signed_df cm)"
    by (rule construct_Inr) blast
  have i: "''B'' \<in> set (investments (params inst))" by (simp add: inst)
  have l: "param (lower_asset_bounds (params inst)) ''B'' = - 1" by (simp add: inst)
  from short_bound_as_built [OF c i] have
    "{c. (Cons_shrt_invest_lbs ''B'', c) \<in> set (constraints inst)} =
         {Ge (Neg (Var (Allocation_s ''B''))) (Mul (Var (D_s ''B'')) (Num (- 1)))}"
    and "holds short_B (Ge (Neg (Var (Allocation_s ''B''))) (Mul (Var (D_s ''B'')) (Num (- 1))))
       \<longleftrightarrow> short_B (Allocation_s ''B'') \<le> short_B (D_s ''B'') * (- (- 1))"
    by (simp_all only: l)
  moreover have "short_B (Allocation_s ''B'') \<le> short_B (D_s ''B'') * (- (- 1))"
    by (simp add: short_B_def)
  ultimately show ?thesis using c i by blast
qed

text \<open>
  The claim as first stated takes the lower bound itself for the ceiling. With the lower
  bound \<open>0.1\<close> of the reference asset A, no constraint of the instance is the relation
  \<open>s\<^sub>A \<le> d\<^sub>A\<^sup>s \<cdot> 0.1\<close>, and the two disagree: a short position of \<open>0.05\<close> with the indicator
  set satisfies that relation and violates the constraint of the instance.
\<close>

theorem short_bound_as_built_counterexample:
  "case construct example_df example_cov of
     Inl e \<Rightarrow> False
   | Inr inst \<Rightarrow>
       (Cons_shrt_invest_lbs ''A'', sflag_rule (params inst) ''A'') \<in> set (constraints inst)
       \<and> short_bound_spec (params inst) ''A'' \<notin> snd ` set (constraints inst)
       \<and> holds short_A (short_bound_spec (params inst) ''A'')
       \<and> \<not> holds short_A (sflag_rule (params inst) ''A'')"
proof -
  from construct_reference(1) obtain inst where c: "construct example_df example_cov = Inr inst" ..
  then obtain cm where inst: "inst = declare_components (build_model example_df cm)"
    by (rule construct_Inr) blast
  have 1: "(Cons_shrt_invest_lbs ''A'', sflag_rule (params inst) ''A'') \<in> set (constraints inst)"
    by (simp add: inst constraints_member(2))
  have 2: "short_bound_spec (params inst) ''A'' \<notin> snd ` set (constraints inst)"
    by (auto simp: inst declare_components_def Constraint_indexed_def short_bound_spec_def
        lflag_rule_def sflag_rule_def card_rule_def binary_rule_def netlong_rule_ub_def
        netlong_rule_lb_def netshrt_rule_ub_def netshrt_rule_lb_def)
  have 3: "holds short_A (short_bound_spec (params inst) ''A'')"
    by (simp add: inst short_bound_spec_def short_A_def)
  have 4: "\<not> holds short_A (sflag_rule (params inst) ''A'')"
    by (simp add: inst sflag_rule_def short_A_def)
  from 1 2 3 4 show ?thesis by (simp add: c)
qed

section \<open>The aggregate long bounds\<close>

text \<open>
  Claim C2 asks for both \<open>L\<^sub>lo \<le> \<Sum>\<^sub>i l\<^sub>i\<close> and \<open>\<Sum>\<^sub>i l\<^sub>i \<le> L\<^sub>hi\<close>. The code does not enforce the
  lower bound: \<^verbatim>\<open>netlong_rule_lb\<close>, documented as the lower bound on the aggregate long
  investment, returns the same relation as \<^verbatim>\<open>netlong_rule_ub\<close>, and
  \<^verbatim>\<open>net_lower_long_bound\<close> is never read. For the signed reference data the constraint named
  \<^verbatim>\<open>net_long_lower\<close> is \<open>\<Sum>\<^sub>i l\<^sub>i \<le> 1\<close>, and the assignment that is short in B only is
  feasible although its aggregate long allocation \<open>0\<close> is below \<open>L\<^sub>lo = 0.5\<close>.
\<close>

theorem net_long_lower_bound_not_enforced:
  "case construct signed_df example_cov of
     Inl e \<Rightarrow> False
   | Inr inst \<Rightarrow>
       {c. (Net_long_lower ''A'', c) \<in> set (constraints inst)} =
          {Le (SumOf (map (\<lambda>i. Var (Allocation_l i)) (investments (params inst))))
              (Num net_upper_long_bound)}
       \<and> netlong_rule_lb (params inst) ''A'' = netlong_rule_ub (params inst) ''A''
       \<and> feasible inst short_B
       \<and> eval short_B (SumOf (map (\<lambda>i. Var (Allocation_l i)) (investments (params inst)))) = 0
       \<and> 0 < net_lower_long_bound"
proof -
  from construct_reference(2) obtain inst where c: "construct signed_df example_cov = Inr inst" ..
  then obtain cm where inst: "inst = declare_components (build_model signed_df cm)"
    by (rule construct_Inr) blast
  have 1: "{c. (Net_long_lower ''A'', c) \<in> set (constraints inst)} =
          {Le (SumOf (map (\<lambda>i. Var (Allocation_l i)) (investments (params inst))))
              (Num net_upper_long_bound)}"
    by (simp add: inst constraints_named_net_long_lower netlong_rule_lb_def)
  have 2: "netlong_rule_lb (params inst) ''A'' = netlong_rule_ub (params inst) ''A''"
    by (simp add: netlong_rule_lb_def netlong_rule_ub_def)
  have 3: "feasible inst short_B" by (simp add: inst feasible_short_B)
  have 4: "eval short_B (SumOf (map (\<lambda>i. Var (Allocation_l i)) (investments (params inst)))) = 0"
    by (simp add: inst short_B_def)
  have 5: "0 < net_lower_long_bound" by (simp add: net_lower_long_bound_def)
  from 1 2 3 4 5 show ?thesis by (simp add: c)
qed

section \<open>Viewing the results of a loaded assignment\<close>

lemma py_sum_Inr: "py_sum (map (\<lambda>x. Inr (f x)) xs) = Inr (sum_list (map f xs))"
  by (induction xs) simp_all

lemma py_list_Inr: "py_list (map (\<lambda>x. Inr (f x)) xs) = Inr (map f xs)"
  by (induction xs) simp_all

lemma operand_loaded [simp]: "operand (loaded a x) = Inr (a x)"
  by (simp add: operand_def loaded_def)

lemma arith_Inr [simp]: "arith f (Inr x) (Inr y) = Inr (f x y)"
  by (simp add: arith_def)

lemma net_value_loaded [simp]:
  "net_value (loaded a) i = Inr (a (Allocation_l i) - a (Allocation_s i))"
  by (simp add: net_value_def)

lemma allocation_line_loaded [simp]:
  "allocation_line (loaded a) i = Inr (i, a (Allocation_l i), a (Allocation_s i))"
  by (simp add: allocation_line_def)

lemma view_results_loaded:
  "view_results m (loaded a) = Inr
     \<lparr> rs = (\<Sum>i\<leftarrow>investments m. param (returns m) i * (a (Allocation_l i) - a (Allocation_s i))),
       covs = (\<Sum>(i, j)\<leftarrow>covariance_mat_keys m. param (covariance_mat m) (i, j)
                 * (a (Allocation_l i) - a (Allocation_s i))
                 * (a (Allocation_l j) - a (Allocation_s j))),
       cards = (\<Sum>i\<leftarrow>investments m. a (D_l i) + a (D_s i)),
       tlong = (\<Sum>i\<leftarrow>investments m. a (D_l i) * a (Allocation_l i)),
       clong = (\<Sum>i\<leftarrow>investments m. a (D_l i)),
       tshrt = (\<Sum>i\<leftarrow>investments m. a (D_s i) * a (Allocation_s i)),
       cshrt = (\<Sum>i\<leftarrow>investments m. a (D_s i)),
       ann_sharpe = np_divide
         (sqrt 252 * (\<Sum>i\<leftarrow>investments m.
             param (returns m) i * (a (Allocation_l i) - a (Allocation_s i))))
         (np_sqrt (\<Sum>(i, j)\<leftarrow>covariance_mat_keys m. param (covariance_mat m) (i, j)
                 * (a (Allocation_l i) - a (Allocation_s i))
                 * (a (Allocation_l j) - a (Allocation_s j)))),
       allocations = map (\<lambda>i. (i, a (Allocation_l i), a (Allocation_s i))) (investments m) \<rparr>"
proof -
  have c: "(\<lambda>(i, j). arith (*) (arith (*) (Inr (param (covariance_mat m) (i, j)))
                (net_value (loaded a) i)) (net_value (loaded a) j))
      = (\<lambda>x. Inr (case x of (i, j) \<Rightarrow> param (covariance_mat m) (i, j)
                 * (a (Allocation_l i) - a (Allocation_s i))
                 * (a (Allocation_l j) - a (Allocation_s j))))"
    by (rule ext) (simp split: prod.splits)
  have l: "allocation_line (loaded a) = (\<lambda>i. Inr (i, a (Allocation_l i), a (Allocation_s i)))"
    by (rule ext) simp
  show ?thesis
    unfolding view_results_def c l
    by (simp add: py_sum_Inr py_list_Inr)
qed

lemma main_Inr:
  "construct array_df cov_df = Inr inst \<Longrightarrow>
     main array_df cov_df opt_solve = view_results (params inst) (snd (opt_solve inst))"
  by (simp add: main_def split: prod.splits)

lemma sum_list_pairs_zero [simp]: "(\<Sum>(i, j)\<leftarrow>ps. 0) = (0::real)"
  by (induction ps) auto

lemma np_divide_zero_variance:
  "np_divide (sqrt 252 * x) (np_sqrt 0) = (if x = 0 then NaN else if 0 < x then PosInf else NegInf)"
  by (simp add: np_divide_def np_sqrt_def zero_less_mult_iff)

lemma covariance_mat_build_model [simp]: "covariance_mat (build_model array_df cm) = cm"
  by (simp add: build_model_def)

lemma param_flat_cov [simp]:
  "param flat_cov (''A'', ''A'') = 0" "param flat_cov (''A'', ''B'') = 0"
  "param flat_cov (''B'', ''A'') = 0" "param flat_cov (''B'', ''B'') = 0"
  by (simp_all add: param_def flat_cov_def)

lemma flagged_product:
  assumes "feasible (declare_components m) a" and "i \<in> set (investments m)"
  shows "a (D_l i) * a (Allocation_l i) = a (Allocation_l i)"
    and "a (D_s i) * a (Allocation_s i) = a (Allocation_s i)"
proof -
  from feasible_domains [OF assms]
  have s: "0 \<le> a (Allocation_s i)" and l: "0 \<le> a (Allocation_l i)"
    and dl: "a (D_l i) = 0 \<or> a (D_l i) = 1" and ds: "a (D_s i) = 0 \<or> a (D_s i) = 1"
    by simp_all
  from feasible_constraints(1) [OF assms]
  have "a (Allocation_l i) \<le> a (D_l i) * param (upper_asset_bounds m) i"
    by (simp add: lflag_rule_def)
  with l dl show "a (D_l i) * a (Allocation_l i) = a (Allocation_l i)" by auto
  from feasible_constraints(2) [OF assms]
  have "a (Allocation_s i) \<le> a (D_s i) * (- param (lower_asset_bounds m) i)"
    by (simp add: holds_sflag_rule)
  with s ds show "a (D_s i) * a (Allocation_s i) = a (Allocation_s i)" by auto
qed

section \<open>The Sharpe ratio at zero variance\<close>

text \<open>
  Claim C7, as amended. The result derivation has no guard on the variance and raises no
  error for it: for every loaded assignment the report is produced, and when the portfolio
  variance computed from the solution is exactly zero the annualized Sharpe ratio in the
  report is the outcome of the numpy division by zero, \<^verbatim>\<open>nan\<close> when the net return is zero
  too (as for an assignment with all allocations zero) and plus or minus infinity with
  the sign of the net return otherwise.
\<close>

theorem sharpe_at_zero_variance:
  "\<exists>r. view_results m (loaded a) = Inr r \<and>
     (covs r = 0 \<longrightarrow>
        ann_sharpe r = (if rs r = 0 then NaN else if 0 < rs r then PosInf else NegInf))"
  by (simp add: view_results_loaded np_divide_zero_variance)

text \<open>
  Two assets without risk, asset A long by one tenth: the variance is zero, the net return
  is positive and the reported Sharpe ratio is infinite.
\<close>

theorem sharpe_at_zero_variance_witness:
  "\<exists>r. view_results (build_model example_df flat_cov) (loaded long_A) = Inr r
     \<and> covs r = 0 \<and> rs r = 1 / 10000 \<and> ann_sharpe r = PosInf"
proof -
  from sharpe_at_zero_variance [of "build_model example_df flat_cov" long_A]
  obtain r where r: "view_results (build_model example_df flat_cov) (loaded long_A) = Inr r"
    and s: "covs r = 0 \<longrightarrow>
        ann_sharpe r = (if rs r = 0 then NaN else if 0 < rs r then PosInf else NegInf)"
    by blast
  from r have "covs r = 0" and "rs r = 1 / 10000"
    by (auto simp: view_results_loaded covariance_mat_keys_def long_A_def)
  with r s show ?thesis by simp
qed

text \<open>
  The claim as first stated fails when nothing is held: the script runs to its end
  and reports \<^verbatim>\<open>nan\<close> as the Sharpe ratio.
\<close>

theorem sharpe_at_zero_variance_counterexample:
  "case main example_df example_cov (\<lambda>inst. (Optimal, loaded nothing_held)) of
     Inl e \<Rightarrow> False
   | Inr r \<Rightarrow> covs r = 0 \<and> ann_sharpe r = NaN"
proof -
  from construct_reference(1) obtain inst where c: "construct example_df example_cov = Inr inst" ..
  show ?thesis
    by (simp add: main_Inr [OF c] view_results_loaded nothing_held_def np_divide_def np_sqrt_def)
qed

section \<open>Total long and short allocation\<close>

text \<open>
  Claim C8, as amended. The reported total long allocation is the indicator-weighted sum
  \<open>\<Sum>\<^sub>i d\<^sub>i\<^sup>l \<cdot> l\<^sub>i\<close> of the values in the solution, and the reported total short allocation
  is \<open>\<Sum>\<^sub>i d\<^sub>i\<^sup>s \<cdot> s\<^sub>i\<close>. They equal the plain sums \<open>\<Sum>\<^sub>i l\<^sub>i\<close> and \<open>\<Sum>\<^sub>i s\<^sub>i\<close> whenever the
  assignment is feasible for the instance, that is, respects the variable domains and
  satisfies the constraints exactly.
\<close>

theorem total_allocations:
  "\<exists>r. view_results m (loaded a) = Inr r
     \<and> tlong r = (\<Sum>i\<leftarrow>investments m. a (D_l i) * a (Allocation_l i))
     \<and> tshrt r = (\<Sum>i\<leftarrow>investments m. a (D_s i) * a (Allocation_s i))
     \<and> (feasible (declare_components m) a \<longrightarrow>
          tlong r = (\<Sum>i\<leftarrow>investments m. a (Allocation_l i))
          \<and> tshrt r = (\<Sum>i\<leftarrow>investments m. a (Allocation_s i)))"
proof -
  have "(\<Sum>i\<leftarrow>investments m. a (D_l i) * a (Allocation_l i))
        = (\<Sum>i\<leftarrow>investments m. a (Allocation_l i))"
    and "(\<Sum>i\<leftarrow>investments m. a (D_s i) * a (Allocation_s i))
        = (\<Sum>i\<leftarrow>investments m. a (Allocation_s i))"
    if f: "feasible (declare_components m) a"
  proof -
    have "map (\<lambda>i. a (D_l i) * a (Allocation_l i)) (investments m)
        = map (\<lambda>i. a (Allocation_l i)) (investments m)"
      by (rule map_cong [OF refl]) (rule flagged_product(1) [OF f])
    then show "(\<Sum>i\<leftarrow>investments m. a (D_l i) * a (Allocation_l i))
        = (\<Sum>i\<leftarrow>investments m. a (Allocation_l i))"
      by (simp only:)
    have "map (\<lambda>i. a (D_s i) * a (Allocation_s i)) (investments m)
        = map (\<lambda>i. a (Allocation_s i)) (investments m)"
      by (rule map_cong [OF refl]) (rule flagged_product(2) [OF f])
    then show "(\<Sum>i\<leftarrow>investments m. a (D_s i) * a (Allocation_s i))
        = (\<Sum>i\<leftarrow>investments m. a (Allocation_s i))"
      by (simp only:)
  qed
  then show ?thesis by (simp add: view_results_loaded)
qed

text \<open>
  The assignment that is short in asset B by one half is feasible for the signed reference
  data: the totals are \<open>0\<close> and \<open>0.5\<close>.
\<close>

theorem total_allocations_witness:
  "\<exists>r. view_results (build_model signed_df example_cov) (loaded short_B) = Inr r
     \<and> feasible (declare_components (build_model signed_df example_cov)) short_B
     \<and> tlong r = 0 \<and> tshrt r = 1 / 2"
proof -
  let ?m = "build_model signed_df example_cov"
  from total_allocations [of ?m short_B] obtain r
    where r: "view_results ?m (loaded short_B) = Inr r"
      and f: "feasible (declare_components ?m) short_B \<longrightarrow>
          tlong r = (\<Sum>i\<leftarrow>investments ?m. short_B (Allocation_l i))
          \<and> tshrt r = (\<Sum>i\<leftarrow>investments ?m. short_B (Allocation_s i))"
    by blast
  have "feasible (declare_components ?m) short_B" by (rule feasible_short_B)
  with f r show ?thesis by (simp add: short_B_def)
qed

text \<open>
  The claim as first stated fails for values where an allocation comes with an indicator
  that is not one: asset A long by one quarter with a long indicator of zero is reported
  with a total long allocation of \<open>0\<close>, the plain sum being \<open>0.25\<close>.
\<close>

theorem total_allocations_counterexample:
  "case main example_df example_cov (\<lambda>inst. (Optimal, loaded unflagged_long_A)) of
     Inl e \<Rightarrow> False
   | Inr r \<Rightarrow> tlong r = 0 \<and> (\<Sum>i\<leftarrow>[''A'', ''B'']. unflagged_long_A (Allocation_l i)) = 1 / 4"
proof -
  from construct_reference(1) obtain inst where c: "construct example_df example_cov = Inr inst" ..
  then obtain cm where inst: "inst = declare_components (build_model example_df cm)"
    by (rule construct_Inr) blast
  show ?thesis
    by (simp add: main_Inr [OF c] view_results_loaded inst unflagged_long_A_def)
qed

section \<open>Reading the covariance table\<close>

lemma set_initialize_Nil_iff: "set_initialize xs = [] \<longleftrightarrow> xs = []"
  using set_set_initialize [of xs] by (metis set_empty)

lemma construct_Inl:
  assumes "construct array_df cov_df = Inl e"
  shows "(e = KeyError \<and> (\<exists>i\<in>set (investment_strs array_df).
            \<exists>j\<in>set (investment_strs array_df). cov_df (i, j) = None))
         \<or> (e = ValueError \<and> array_df = [])"
proof -
  let ?inv = "set_initialize (investment_strs array_df)"
  show ?thesis
  proof (cases "param_by_rule (cov_init cov_df) (List.product ?inv ?inv)")
    case (Inl e')
    with assms have "e' = e" by (simp add: construct_def Let_def)
    with param_by_rule_error [OF Inl] show ?thesis
      by (auto simp: set_set_initialize)
  next
    case (Inr cm)
    with assms have "e = ValueError" and "?inv = []"
      by (auto simp: construct_def Let_def split: if_splits)
    then show ?thesis
      by (simp add: set_initialize_Nil_iff investment_strs_def)
  qed
qed

lemma asym_cov_entries:
  "asym_cov (''A'', ''A'') = Some 1" "asym_cov (''A'', ''B'') = Some 2"
  "asym_cov (''B'', ''A'') = Some 3" "asym_cov (''B'', ''B'') = Some 1"
  by (simp_all add: asym_cov_def)

text \<open>
  Claim C9, as amended. Construction does not compare \<open>cov[i, j]\<close> with \<open>cov[j, i]\<close> and has
  no validation error: the covariance table is read entry by entry, once for each ordered
  pair of tickers. Whenever there is at least one asset and the table has an entry for
  every ordered pair of tickers, the instance is built and its covariance parameter holds
  the entries of the table as they are, symmetric or not. Construction fails only with
  \<^verbatim>\<open>KeyError\<close>, when an entry of the table is missing, or with \<^verbatim>\<open>ValueError\<close>, when
  there is no asset.
\<close>

theorem covariance_read_as_given:
  "(array_df \<noteq> [] \<and> (\<forall>i\<in>set (investment_strs array_df).
        \<forall>j\<in>set (investment_strs array_df). cov_df (i, j) \<noteq> None) \<longrightarrow>
      (\<exists>inst. construct array_df cov_df = Inr inst \<and>
         (\<forall>i\<in>set (investment_strs array_df). \<forall>j\<in>set (investment_strs array_df).
             covariance_mat (params inst) (i, j) = cov_df (i, j))))
   \<and> (\<forall>e. construct array_df cov_df = Inl e \<longrightarrow>
         (e = KeyError \<and> (\<exists>i\<in>set (investment_strs array_df).
              \<exists>j\<in>set (investment_strs array_df). cov_df (i, j) = None))
         \<or> (e = ValueError \<and> array_df = []))"
proof (intro conjI impI allI)
  assume a: "array_df \<noteq> [] \<and> (\<forall>i\<in>set (investment_strs array_df).
        \<forall>j\<in>set (investment_strs array_df). cov_df (i, j) \<noteq> None)"
  then have "\<exists>inst. construct array_df cov_df = Inr inst"
    by (intro construct_total) auto
  then obtain inst where c: "construct array_df cov_df = Inr inst" ..
  then obtain cm where "investments (params inst) = set_initialize (investment_strs array_df)"
    by (rule construct_Inr) blast
  then have s: "set (investments (params inst)) = set (investment_strs array_df)"
    by (simp add: set_set_initialize)
  have "covariance_mat (params inst) (i, j) = cov_df (i, j)"
    if "i \<in> set (investment_strs array_df)" "j \<in> set (investment_strs array_df)" for i j
    using construct_cov_defined [OF c, of i j] that s by auto
  with c show "\<exists>inst. construct array_df cov_df = Inr inst \<and>
         (\<forall>i\<in>set (investment_strs array_df). \<forall>j\<in>set (investment_strs array_df).
             covariance_mat (params inst) (i, j) = cov_df (i, j))"
    by blast
next
  fix e assume "construct array_df cov_df = Inl e"
  then show "(e = KeyError \<and> (\<exists>i\<in>set (investment_strs array_df).
              \<exists>j\<in>set (investment_strs array_df). cov_df (i, j) = None))
         \<or> (e = ValueError \<and> array_df = [])"
    by (rule construct_Inl)
qed

text \<open>The table with \<open>cov[A, B] = 2\<close> and \<open>cov[B, A] = 3\<close> is complete for the reference assets.\<close>

theorem covariance_read_as_given_witness:
  "\<exists>inst. construct example_df asym_cov = Inr inst
     \<and> covariance_mat (params inst) (''A'', ''B'') = Some 2
     \<and> covariance_mat (params inst) (''B'', ''A'') = Some 3"
proof -
  have t: "set (investment_strs example_df) = {''A'', ''B''}"
    by (simp add: investment_strs_def example_df_def)
  have "example_df \<noteq> [] \<and> (\<forall>i\<in>set (investment_strs example_df).
        \<forall>j\<in>set (investment_strs example_df). asym_cov (i, j) \<noteq> None)"
    by (simp add: t asym_cov_entries) (simp add: example_df_def)
  with covariance_read_as_given [of example_df asym_cov]
  obtain inst where "construct example_df asym_cov = Inr inst"
    and "\<forall>i\<in>set (investment_strs example_df). \<forall>j\<in>set (investment_strs example_df).
             covariance_mat (params inst) (i, j) = asym_cov (i, j)"
    by blast
  then show ?thesis by (auto simp: t asym_cov_entries)
qed

text \<open>
  The claim as first stated fails for that table: it is not symmetric, by far more than
  \<open>10\<^sup>-\<^sup>9\<close>, and the instance is built from it.
\<close>

theorem covariance_read_as_given_counterexample:
  "case construct example_df asym_cov of
     Inl e \<Rightarrow> False
   | Inr inst \<Rightarrow>
       covariance_mat (params inst) (''A'', ''B'') = Some 2
       \<and> covariance_mat (params inst) (''B'', ''A'') = Some 3
       \<and> 1 / 10 ^ 9 < \<bar>2 - 3 :: real\<bar>"
proof -
  from construct_reference(3) obtain inst where c: "construct example_df asym_cov = Inr inst" ..
  then obtain cm where inst: "inst = declare_components (build_model example_df cm)"
    by (rule construct_Inr) blast
  have i: "''A'' \<in> set (investments (params inst))" "''B'' \<in> set (investments (params inst))"
    by (simp_all add: inst)
  from construct_cov_defined [OF c i(1) i(2)] construct_cov_defined [OF c i(2) i(1)]
  show ?thesis by (simp add: c asym_cov_entries)
qed

section \<open>Errors of the result derivation\<close>

lemma operand_Inl: "operand x = Inl e \<longleftrightarrow> x = None \<and> e = TypeError"
  by (auto simp: operand_def split: option.splits)

lemma operand_Inr: "operand x = Inr r \<longleftrightarrow> x = Some r"
  by (auto simp: operand_def split: option.splits)

lemma arith_Inl: "arith f x y = Inl e \<Longrightarrow> x = Inl e \<or> y = Inl e"
  by (auto simp: arith_def split: sum.splits)

lemma arith_Inr_iff: "arith f x y = Inr z \<longleftrightarrow> (\<exists>a b. x = Inr a \<and> y = Inr b \<and> z = f a b)"
  by (auto simp: arith_def split: sum.splits)

lemma py_sum_Inl: "py_sum ts = Inl e \<Longrightarrow> Inl e \<in> set ts"
  by (induction ts) (auto split: sum.splits)

lemma py_sum_Inr_all: "py_sum ts = Inr y \<Longrightarrow> t \<in> set ts \<Longrightarrow> \<exists>x. t = Inr x"
  by (induction ts arbitrary: y) (auto split: sum.splits)

lemma py_list_Inl: "py_list ts = Inl e \<Longrightarrow> Inl e \<in> set ts"
  by (induction ts) (auto split: sum.splits)

lemma py_sum_map_Inl: "py_sum (map f xs) = Inl e \<Longrightarrow> \<exists>x\<in>set xs. f x = Inl e"
  by (drule py_sum_Inl) auto

lemma py_list_map_Inl: "py_list (map f xs) = Inl e \<Longrightarrow> \<exists>x\<in>set xs. f x = Inl e"
  by (drule py_list_Inl) auto

lemma net_value_Inl: "net_value v i = Inl e \<Longrightarrow> e = TypeError"
  by (auto simp: net_value_def operand_Inl dest!: arith_Inl)

lemma allocation_line_Inl: "allocation_line v i = Inl e \<Longrightarrow> e = TypeError"
  by (auto simp: allocation_line_def operand_Inl split: sum.splits)

lemma term_Inl:
  "arith f (Inr c) (net_value v i) = Inl e \<Longrightarrow> e = TypeError"
  "arith f (arith g (Inr c) (net_value v i)) (net_value v j) = Inl e \<Longrightarrow> e = TypeError"
  "arith f (operand x) (operand y) = Inl e \<Longrightarrow> e = TypeError"
  by (auto simp: operand_Inl dest!: arith_Inl dest: net_value_Inl)

lemma view_results_Inl:
  assumes "view_results m v = Inl e"
  shows "e = TypeError"
  using assms unfolding view_results_def
  by (auto split: sum.splits simp: operand_Inl
      dest!: py_sum_map_Inl py_list_map_Inl dest: term_Inl allocation_line_Inl)

lemma view_results_Inr_values:
  assumes "view_results m v = Inr r" and "i \<in> set (investments m)"
  shows "v (Allocation_l i) \<noteq> None" and "v (Allocation_s i) \<noteq> None"
    and "v (D_l i) \<noteq> None" and "v (D_s i) \<noteq> None"
proof -
  from assms(1) obtain x y where
    x: "py_sum (map (\<lambda>i. arith (*) (Inr (param (returns m) i)) (net_value v i))
                       (investments m)) = Inr x"
    and y: "py_sum (map (\<lambda>i. arith (+) (operand (v (D_l i))) (operand (v (D_s i))))
                       (investments m)) = Inr y"
    unfolding view_results_def by (auto split: sum.splits)
  from py_sum_Inr_all [OF x, of "arith (*) (Inr (param (returns m) i)) (net_value v i)"] assms(2)
  obtain z where "arith (*) (Inr (param (returns m) i)) (net_value v i) = Inr z" by auto
  then show "v (Allocation_l i) \<noteq> None" and "v (Allocation_s i) \<noteq> None"
    by (auto simp: arith_Inr_iff net_value_def operand_Inr)
  from py_sum_Inr_all [OF y, of "arith (+) (operand (v (D_l i))) (operand (v (D_s i)))"] assms(2)
  obtain z where "arith (+) (operand (v (D_l i))) (operand (v (D_s i))) = Inr z" by auto
  then show "v (D_l i) \<noteq> None" and "v (D_s i) \<noteq> None"
    by (auto simp: arith_Inr_iff operand_Inr)
qed

lemma view_results_cong:
  assumes "\<And>i. i \<in> set (investments m) \<Longrightarrow>
      v (Allocation_l i) = w (Allocation_l i) \<and> v (Allocation_s i) = w (Allocation_s i)
      \<and> v (D_l i) = w (D_l i) \<and> v (D_s i) = w (D_s i)"
  shows "view_results m v = view_results m w"
proof -
  have n: "net_value v i = net_value w i" if "i \<in> set (investments m)" for i
    using assms [OF that] by (simp add: net_value_def)
  have 1: "map (\<lambda>i. arith (*) (Inr (param (returns m) i)) (net_value v i)) (investments m)
      = map (\<lambda>i. arith (*) (Inr (param (returns m) i)) (net_value w i)) (investments m)"
    by (rule map_cong [OF refl]) (simp add: n)
  have 2: "map (\<lambda>(i, j). arith (*) (arith (*) (Inr (param (covariance_mat m) (i, j)))
                                                  (net_value v i)) (net_value v j))
               (covariance_mat_keys m)
      = map (\<lambda>(i, j). arith (*) (arith (*) (Inr (param (covariance_mat m) (i, j)))
                                                  (net_value w i)) (net_value w j))
               (covariance_mat_keys m)"
    by (rule map_cong [OF refl]) (auto simp: covariance_mat_keys_def n)
  have 3: "map (\<lambda>i. arith (+) (operand (v (D_l i))) (operand (v (D_s i)))) (investments m)
      = map (\<lambda>i. arith (+) (operand (w (D_l i))) (operand (w (D_s i)))) (investments m)"
    by (rule map_cong [OF refl]) (simp add: assms)
  have 4: "map (\<lambda>i. arith (*) (operand (v (D_l i))) (operand (v (Allocation_l i)))) (investments m)
      = map (\<lambda>i. arith (*) (operand (w (D_l i))) (operand (w (Allocation_l i)))) (investments m)"
    by (rule map_cong [OF refl]) (simp add: assms)
  have 5: "map (\<lambda>i. operand (v (D_l i))) (investments m)
      = map (\<lambda>i. operand (w (D_l i))) (investments m)"
    by (rule map_cong [OF refl]) (simp add: assms)
  have 6: "map (\<lambda>i. arith (*) (operand (v (D_s i))) (operand (v (Allocation_s i)))) (investments m)
      = map (\<lambda>i. arith (*) (operand (w (D_s i))) (operand (w (Allocation_s i)))) (investments m)"
    by (rule map_cong [OF refl]) (simp add: assms)
  have 7: "map (\<lambda>i. operand (v (D_s i))) (investments m)
      = map (\<lambda>i. operand (w (D_s i))) (investments m)"
    by (rule map_cong [OF refl]) (simp add: assms)
  have 8: "map (allocation_line v) (investments m) = map (allocation_line w) (investments m)"
    by (rule map_cong [OF refl]) (simp add: allocation_line_def assms split: sum.splits)
  show ?thesis
    unfolding view_results_def 1 2 3 4 5 6 7 8 ..
qed

lemma view_results_present:
  assumes "\<And>i. i \<in> set (investments m) \<Longrightarrow>
      v (Allocation_l i) \<noteq> None \<and> v (Allocation_s i) \<noteq> None
      \<and> v (D_l i) \<noteq> None \<and> v (D_s i) \<noteq> None"
  shows "\<exists>r. view_results m v = Inr r"
proof -
  have "view_results m v = view_results m (loaded (\<lambda>x. the (v x)))"
    by (rule view_results_cong) (use assms in \<open>auto simp: loaded_def\<close>)
  then show ?thesis by (simp add: view_results_loaded)
qed

lemma all_values_iff:
  "list_all (\<lambda>(x, d). v x \<noteq> None) (variables (declare_components m)) \<longleftrightarrow>
     (\<forall>i\<in>set (investments m). v (Allocation_l i) \<noteq> None \<and> v (Allocation_s i) \<noteq> None
        \<and> v (D_l i) \<noteq> None \<and> v (D_s i) \<noteq> None)"
  by (simp add: declare_components_def Var_indexed_def list.pred_map comp_def list_all_iff)
    blast

section \<open>The solver status\<close>

text \<open>
  Claim C6, as amended. The script never reads the status that the solver returns: after
  the solve the result derivation always runs on the values of the variables. When every
  declared variable has a value the report is produced whatever the status is, also for
  Infeasible, Unbounded, SolverError and TimedOut, and it is the report that the status
  Optimal gives for the same values. When some declared variable has no value the
  derivation raises \<^verbatim>\<open>TypeError\<close>. The status itself is not passed on.
\<close>

theorem status_not_inspected:
  assumes "construct array_df cov_df = Inr inst" and "opt_solve inst = (st, v)"
  shows "(list_all (\<lambda>(x, d). v x \<noteq> None) (variables inst) \<longrightarrow>
            (\<exists>r. main array_df cov_df opt_solve = Inr r
               \<and> main array_df cov_df (\<lambda>inst. (Optimal, v)) = Inr r))
    \<and> (\<not> list_all (\<lambda>(x, d). v x \<noteq> None) (variables inst) \<longrightarrow>
            main array_df cov_df opt_solve = Inl TypeError)"
proof -
  from assms(1) obtain cm where inst: "inst = declare_components (build_model array_df cm)"
    by (rule construct_Inr) blast
  let ?m = "params inst"
  have m: "main array_df cov_df opt_solve = view_results ?m v"
    and m': "main array_df cov_df (\<lambda>inst. (Optimal, v)) = view_results ?m v"
    using assms(2) by (simp_all add: main_Inr [OF assms(1)])
  have i: "inst = declare_components ?m" by (simp add: inst)
  have all: "list_all (\<lambda>(x, d). v x \<noteq> None) (variables inst) \<longleftrightarrow>
     (\<forall>i\<in>set (investments ?m). v (Allocation_l i) \<noteq> None \<and> v (Allocation_s i) \<noteq> None
        \<and> v (D_l i) \<noteq> None \<and> v (D_s i) \<noteq> None)"
    using all_values_iff [of v ?m] i by simp
  show ?thesis
  proof (intro conjI impI)
    assume "list_all (\<lambda>(x, d). v x \<noteq> None) (variables inst)"
    with all view_results_present [of ?m v] obtain r where "view_results ?m v = Inr r" by blast
    then show "\<exists>r. main array_df cov_df opt_solve = Inr r
               \<and> main array_df cov_df (\<lambda>inst. (Optimal, v)) = Inr r"
      by (simp add: m m')
  next
    assume n: "\<not> list_all (\<lambda>(x, d). v x \<noteq> None) (variables inst)"
    show "main array_df cov_df opt_solve = Inl TypeError"
    proof (cases "view_results ?m v")
      case (Inl e)
      with view_results_Inl [OF Inl] m show ?thesis by simp
    next
      case (Inr r)
      from view_results_Inr_values [OF Inr] all n show ?thesis by blast
    qed
  qed
qed

text \<open>
  For the signed reference data: a solve that stops at its time limit with asset B short by
  one half is reported, and an infeasible solve that loaded nothing ends in \<^verbatim>\<open>TypeError\<close>.
\<close>

theorem status_not_inspected_witness:
  "\<exists>inst. construct signed_df example_cov = Inr inst
     \<and> list_all (\<lambda>(x, d). loaded short_B x \<noteq> None) (variables inst)
     \<and> (\<exists>r. main signed_df example_cov (\<lambda>inst. (TimedOut, loaded short_B)) = Inr r)
     \<and> \<not> list_all (\<lambda>(x, d). nothing_loaded x \<noteq> None) (variables inst)
     \<and> main signed_df example_cov (\<lambda>inst. (Infeasible, nothing_loaded)) = Inl TypeError"
proof -
  from construct_reference(2) obtain inst where c: "construct signed_df example_cov = Inr inst" ..
  then obtain cm where inst: "inst = declare_components (build_model signed_df cm)"
    by (rule construct_Inr) blast
  have 1: "list_all (\<lambda>(x, d). loaded short_B x \<noteq> None) (variables inst)"
    by (simp add: list_all_iff loaded_def split: prod.splits)
  have 2: "\<not> list_all (\<lambda>(x, d). nothing_loaded x \<noteq> None) (variables inst)"
    by (simp add: inst declare_components_def Var_indexed_def nothing_loaded_def)
  from status_not_inspected [OF c, of "\<lambda>inst. (TimedOut, loaded short_B)" TimedOut "loaded short_B"] 1
  have 3: "\<exists>r. main signed_df example_cov (\<lambda>inst. (TimedOut, loaded short_B)) = Inr r"
    by blast
  from status_not_inspected [OF c, of "\<lambda>inst. (Infeasible, nothing_loaded)" Infeasible nothing_loaded] 2
  have 4: "main signed_df example_cov (\<lambda>inst. (Infeasible, nothing_loaded)) = Inl TypeError"
    by blast
  from c 1 2 3 4 show ?thesis by blast
qed

text \<open>
  The claim as first stated fails for the solve that timed out: the report is computed
  from the values that were loaded.
\<close>

theorem status_not_inspected_counterexample:
  "case main signed_df example_cov (\<lambda>inst. (TimedOut, loaded short_B)) of
     Inl e \<Rightarrow> False
   | Inr r \<Rightarrow> rs r = - 1 / 1000 \<and> tshrt r = 1 / 2 \<and> cshrt r = 1
       \<and> allocations r = [(''A'', 0, 0), (''B'', 0, 1 / 2)]"
proof -
  from construct_reference(2) obtain inst where c: "construct signed_df example_cov = Inr inst" ..
  then obtain cm where inst: "inst = declare_components (build_model signed_df cm)"
    by (rule construct_Inr) blast
  show ?thesis
    by (simp add: main_Inr [OF c] view_results_loaded inst short_B_def)
qed

end
